theory Spec2Isabelle
  imports Main "HOL-Library.Sublist" "HOL-Library.Word"
begin

section \<open>The text-processing view component (ui/src/App.js)\<close>

text \<open>
  The component keeps seven pieces of view state, splits the submitted text into
  sentences with a regular expression, talks to two HTTP endpoints and can export the
  last result as a text file.  Strings are modelled as \<^typ>\<open>string\<close> (lists of
  characters); the regular expression has no \<open>u\<close> flag, so it works on the string one
  character unit at a time.
\<close>

subsection \<open>Regular expressions: the fragment used by the component\<close>

text \<open>
  \<open>CharClass negated members\<close> is a bracket expression (\<open>[...]\<close> or \<open>[^...]\<close>),
  \<open>Star\<close> and \<open>Plus\<close> are the greedy quantifiers \<open>*\<close> and \<open>+\<close>.
\<close>

datatype regex =
    CharClass bool string
  | Seq regex regex
  | Star regex
  | Plus regex

fun rank :: "regex \<Rightarrow> nat" where
  "rank (CharClass neg cs) = 0"
| "rank (Seq a b) = Suc (rank a + rank b)"
| "rank (Star a) = Suc (rank a)"
| "rank (Plus a) = Suc (Suc (rank a))"

text \<open>
  The backtracking matcher.  \<open>ends r s\<close> lists, in the order in which the engine tries
  them, the inputs left over after \<open>r\<close> has matched a prefix of \<open>s\<close>; the engine takes
  the first one with which the rest of the pattern succeeds.  A greedy quantifier tries
  one more iteration before it tries to stop, and an iteration that consumes nothing is
  rejected.
\<close>

function ends :: "regex \<Rightarrow> string \<Rightarrow> string list" where
  "ends (CharClass neg cs) s =
     (case s of
        [] \<Rightarrow> []
      | c # s' \<Rightarrow> if (c \<in> set cs) \<noteq> neg then [s'] else [])"
| "ends (Seq a b) s = concat (map (ends b) (ends a s))"
| "ends (Star a) s =
     concat (map (\<lambda>s'. if length s' < length s then ends (Star a) s' else []) (ends a s))
     @ [s]"
| "ends (Plus a) s = concat (map (ends (Star a)) (ends a s))"
  by pat_completeness auto
termination
  by (relation "measures [\<lambda>(r, s). rank r, \<lambda>(r, s). length s]") auto

declare ends.simps(3) [simp del]

text \<open>
  \<open>exec r s\<close> is one call of the engine on the input \<open>s\<close> that remains after the last
  match position: the match is attempted at every start position from left to right, and
  the result is the matched text together with the input after it, or \<open>None\<close> (the
  engine's \<open>null\<close>) when no position matches.
\<close>

fun exec :: "regex \<Rightarrow> string \<Rightarrow> (string \<times> string) option" where
  "exec r [] =
     (case ends r [] of
        [] \<Rightarrow> None
      | e # es \<Rightarrow> Some ([], e))"
| "exec r (c # s) =
     (case ends r (c # s) of
        [] \<Rightarrow> exec r s
      | e # es \<Rightarrow> Some (take (length (c # s) - length e) (c # s), e))"

text \<open>Every leftover input is a suffix of the input the matcher started from.\<close>

lemma ends_suffix: "e \<in> set (ends r s) \<Longrightarrow> suffix e s"
proof (induction r s arbitrary: e rule: ends.induct)
  case (1 neg cs s)
  then show ?case by (cases s) (auto split: if_splits simp: suffix_Cons)
next
  case (2 a b s)
  from 2(3) obtain x where x: "x \<in> set (ends a s)" "e \<in> set (ends b x)" by auto
  from 2(1)[OF x(1)] 2(2)[OF x(1) x(2)] show ?case by (rule suffix_order.trans[rotated])
next
  case (3 a s)
  from 3(3) consider "e = s"
    | x where "x \<in> set (ends a s)" "length x < length s" "e \<in> set (ends (Star a) x)"
    by (subst (asm) ends.simps(3)) (auto split: if_splits)
  then show ?case
  proof cases
    case 1
    then show ?thesis by simp
  next
    case 2
    from 3(1)[OF 2(1)] 3(2)[OF 2(1) 2(2) 2(3)] show ?thesis
      by (rule suffix_order.trans[rotated])
  qed
next
  case (4 a s)
  from 4(3) obtain x where x: "x \<in> set (ends a s)" "e \<in> set (ends (Star a) x)" by auto
  from 4(1)[OF x(1)] 4(2)[OF x(1) x(2)] show ?case by (rule suffix_order.trans[rotated])
qed

lemma exec_split: "exec r s = Some (m, e) \<Longrightarrow> \<exists>pre. s = pre @ m @ e"
proof (induction s)
  case Nil
  then obtain es where "ends r [] = e # es" "m = []"
    by (cases "ends r []") auto
  then have "suffix e []" using ends_suffix [of e r "[]"] by simp
  with \<open>m = []\<close> show ?case by simp
next
  case (Cons c s)
  show ?case
  proof (cases "ends r (c # s)")
    case Nil
    with Cons obtain pre where "s = pre @ m @ e" by auto
    then have "c # s = (c # pre) @ m @ e" by simp
    then show ?thesis by blast
  next
    case (Cons e' es)
    then have "suffix e' (c # s)" using ends_suffix [of e' r "c # s"] by simp
    then obtain p where p: "c # s = p @ e'" by (auto simp: suffix_def)
    from Cons Cons.prems have "e = e'" "m = take (length (c # s) - length e') (c # s)" by auto
    with p have "c # s = [] @ m @ e" by simp
    then show ?thesis by blast
  qed
qed

lemma exec_length: "exec r s = Some (m, e) \<Longrightarrow> length m + length e \<le> length s"
  using exec_split [of r s m e] by auto

text \<open>
  \<open>matchAll r s\<close> is the loop of \<open>String.prototype.match\<close> for a pattern with the
  \<open>g\<close> flag: the engine is called again and again from the end of the previous match
  and the matched texts are collected; after an empty match the position is advanced by
  one so that the loop goes on.  \<open>match_g\<close> is the method's result: \<open>None\<close> (\<open>null\<close>)
  when nothing matched, the list of matches otherwise.
\<close>

function matchAll :: "regex \<Rightarrow> string \<Rightarrow> string list" where
  "matchAll r s =
     (case exec r s of
        None \<Rightarrow> []
      | Some (m, rest) \<Rightarrow>
          if m = [] then
            (case rest of
               [] \<Rightarrow> [m]
             | c # rest' \<Rightarrow> m # matchAll r rest')
          else m # matchAll r rest)"
  by pat_completeness auto
termination
proof (relation "measure (\<lambda>(r, s). length s)")
  show "wf (measure (\<lambda>(r, s). length s))" by simp
next
  fix r s x2 m rest c rest'
  assume "exec r s = Some x2" "(m, rest) = x2" "m = []" "rest = c # rest'"
  then show "((r, rest'), r, s) \<in> measure (\<lambda>(r, s). length s)"
    using exec_length [of r s m rest] by auto
next
  fix r s x2 m rest
  assume "exec r s = Some x2" "(m, rest) = x2" "m \<noteq> []"
  then show "((r, rest), r, s) \<in> measure (\<lambda>(r, s). length s)"
    using exec_length [of r s m rest] by (cases m) auto
qed

declare matchAll.simps [simp del]

definition match_g :: "regex \<Rightarrow> string \<Rightarrow> string list option" where
  "match_g r s = (case matchAll r s of [] \<Rightarrow> None | m # ms \<Rightarrow> Some (m # ms))"

subsection \<open>Sentence splitting\<close>

text \<open>The pattern \<open>/[^.!?]+[.!?]*/g\<close> of \<open>splitIntoSentences\<close>.\<close>

definition sentencePattern :: regex where
  "sentencePattern =
     Seq (Plus (CharClass True ''.!?'')) (Star (CharClass False ''.!?''))"

text \<open>\<open>text.match(/[^.!?]+[.!?]*/g) || []\<close>\<close>

definition splitIntoSentences :: "string \<Rightarrow> string list" where
  "splitIntoSentences text =
     (case match_g sentencePattern text of
        None \<Rightarrow> []
      | Some ms \<Rightarrow> ms)"

text \<open>The characters at which a sentence ends.\<close>

definition isDelimiter :: "char \<Rightarrow> bool" where
  "isDelimiter c = (c \<in> set ''.!?'')"

subsection \<open>Data received from the translation service\<close>

text \<open>
  The fields of a result are values of the host language (type \<open>'v\<close>); the component
  only stores them, renders them and interpolates them into text.
\<close>

record 'v word_info =
  word :: 'v
  freq :: 'v
  gram_info :: 'v

record 'v analysis =
  words_count :: 'v
  words_info :: "'v word_info list"

record 'v translation =
  original_text :: 'v
  original_text_analysis :: "'v analysis"
  translated_text :: 'v
  translated_text_analysis :: "'v analysis"

subsection \<open>View state\<close>

text \<open>The seven \<open>useState\<close> cells of \<open>App\<close>; \<open>None\<close> is \<open>null\<close>.\<close>

record 'v app_state =
  inputText :: string
  results :: "'v translation option"
  syntaxTree :: "string option"
  selectedSentence :: string
  sentences :: "string list"
  loading :: bool
  treeLoading :: bool

definition initialState :: "'v app_state" where
  "initialState =
     \<lparr>inputText = [], results = None, syntaxTree = None, selectedSentence = [],
      sentences = [], loading = False, treeLoading = False\<rparr>"

subsection \<open>Effects of the handlers\<close>

type_synonym bytes = "8 word list"

datatype response_type = Json | ArrayBuffer

record request =
  url :: string
  body_text :: string
  responseType :: response_type

datatype blob_data = TextData string | BinaryData bytes

record blob =
  blob_parts :: blob_data
  blob_type :: string

record link =
  href :: string
  download :: string

text \<open>
  What a handler does, in program order: calls of the state setters, the HTTP request,
  the diagnostic console, object URLs and the temporary link of the download.
\<close>

datatype ('v, 'e) effect =
    PreventDefault
  | SetLoading bool
  | SetResults "'v translation option"
  | SetSyntaxTree "string option"
  | SetSentences "string list"
  | SetTreeLoading bool
  | AxiosPost request
  | ConsoleError string 'e
  | CreateObjectURL blob
  | AppendChild link
  | Click link
  | RemoveChild link

text \<open>
  The awaited request either rejects with an error (no connection, or a status outside
  2xx, which the HTTP client turns into a rejection) or resolves with a response.
\<close>

datatype ('e, 'd) outcome = Rejected 'e | Resolved 'd

record 'd response =
  data :: 'd

text \<open>The state after the setters among the effects have been applied in order.\<close>

fun perform :: "('v, 'e) effect \<Rightarrow> 'v app_state \<Rightarrow> 'v app_state" where
  "perform (SetLoading b) s = s\<lparr>loading := b\<rparr>"
| "perform (SetResults r) s = s\<lparr>results := r\<rparr>"
| "perform (SetSyntaxTree t) s = s\<lparr>syntaxTree := t\<rparr>"
| "perform (SetSentences ss) s = s\<lparr>sentences := ss\<rparr>"
| "perform (SetTreeLoading b) s = s\<lparr>treeLoading := b\<rparr>"
| "perform _ s = s"

definition run :: "('v, 'e) effect list \<Rightarrow> 'v app_state \<Rightarrow> 'v app_state" where
  "run es s = fold perform es s"

text \<open>The requests among the effects, and the effects before and after the request.\<close>

fun requests :: "('v, 'e) effect list \<Rightarrow> request list" where
  "requests [] = []"
| "requests (AxiosPost r # es) = r # requests es"
| "requests (e # es) = requests es"

fun beforeRequest :: "('v, 'e) effect list \<Rightarrow> ('v, 'e) effect list" where
  "beforeRequest [] = []"
| "beforeRequest (AxiosPost r # es) = []"
| "beforeRequest (e # es) = e # beforeRequest es"

fun afterRequest :: "('v, 'e) effect list \<Rightarrow> ('v, 'e) effect list" where
  "afterRequest [] = []"
| "afterRequest (AxiosPost r # es) = es"
| "afterRequest (e # es) = afterRequest es"

subsection \<open>The handlers\<close>

text \<open>
  \<open>handleSubmit\<close>: the statements before \<open>try\<close>, the request, then the rest of the
  \<open>try\<close> block or the \<open>catch\<close> block according to the outcome of the awaited request,
  then the \<open>finally\<close> block.
\<close>

definition handleSubmit ::
  "'v app_state \<Rightarrow> ('e, 'v translation response) outcome \<Rightarrow> ('v, 'e) effect list" where
  "handleSubmit s reply =
     [PreventDefault, SetLoading True, SetResults None, SetSyntaxTree None]
     @ [AxiosPost \<lparr>url = ''http://localhost:8000/api/v0/translation'',
                   body_text = inputText s, responseType = Json\<rparr>]
     @ (case reply of
          Resolved response \<Rightarrow>
            [SetResults (Some (data response)),
             SetSentences (splitIntoSentences (inputText s))]
        | Rejected error \<Rightarrow> [ConsoleError ''Error during API call:'' error])
     @ [SetLoading False]"

text \<open>
  \<open>handleGenerateTree\<close>; \<open>createObjectURL\<close> is the browser's \<open>URL.createObjectURL\<close>.
\<close>

definition handleGenerateTree ::
  "(blob \<Rightarrow> string) \<Rightarrow> 'v app_state \<Rightarrow> ('e, bytes response) outcome
     \<Rightarrow> ('v, 'e) effect list" where
  "handleGenerateTree createObjectURL s reply =
     (if selectedSentence s = [] then []
      else
        [SetTreeLoading True, SetSyntaxTree None]
        @ [AxiosPost \<lparr>url = ''http://localhost:8000/api/v0/tree'',
                      body_text = selectedSentence s, responseType = ArrayBuffer\<rparr>]
        @ (case reply of
             Resolved response \<Rightarrow>
               (let blob = \<lparr>blob_parts = BinaryData (data response),
                              blob_type = ''image/png''\<rparr>;
                    url = createObjectURL blob
                in [CreateObjectURL blob, SetSyntaxTree (Some url)])
           | Rejected error \<Rightarrow>
               [ConsoleError ''Error during tree generation API call:'' error])
        @ [SetTreeLoading False])"

text \<open>
  The text of the exported file.  \<open>toStr\<close> is the conversion to a string that a
  template literal applies to an interpolated value; \<open>forEach\<close> runs the callback on
  every element in order, the callback appending to \<open>fileContent\<close>.
\<close>

definition wordLine :: "('v \<Rightarrow> string) \<Rightarrow> 'v word_info \<Rightarrow> string" where
  "wordLine toStr info =
     ''  - Word: '' @ toStr (word info) @ '', Frequency: '' @ toStr (freq info)
     @ '', Grammatical Info: '' @ toStr (gram_info info) @ ''\<newline>''"

definition forEach :: "'a list \<Rightarrow> ('a \<Rightarrow> 's \<Rightarrow> 's) \<Rightarrow> 's \<Rightarrow> 's" where
  "forEach xs f acc = fold f xs acc"

definition fileContent :: "('v \<Rightarrow> string) \<Rightarrow> 'v translation \<Rightarrow> string" where
  "fileContent toStr r =
     (let fc = ''Translation Results\<newline>\<newline>'';
          fc = fc @ ''\<newline>Original Text:\<newline>'';
          fc = fc @ (toStr (original_text r) @ ''\<newline>\<newline>'');
          fc = fc @ ''Original Text Analysis:\<newline>'';
          fc = fc @ (''Words Count: '' @ toStr (words_count (original_text_analysis r))
                     @ ''\<newline>'');
          fc = fc @ ''Words Info:\<newline>'';
          fc = forEach (words_info (original_text_analysis r))
                 (\<lambda>info fc. fc @ wordLine toStr info) fc;
          fc = fc @ ''\<newline>Translated Text:\<newline>'';
          fc = fc @ (toStr (translated_text r) @ ''\<newline>\<newline>'');
          fc = fc @ ''Translated Text Analysis:\<newline>'';
          fc = fc @ (''Words Count: '' @ toStr (words_count (translated_text_analysis r))
                     @ ''\<newline>'');
          fc = fc @ ''Words Info:\<newline>'';
          fc = forEach (words_info (translated_text_analysis r))
                 (\<lambda>info fc. fc @ wordLine toStr info) fc
      in fc)"

definition handleDownloadResults ::
  "('v \<Rightarrow> string) \<Rightarrow> (blob \<Rightarrow> string) \<Rightarrow> 'v app_state \<Rightarrow> ('v, 'e) effect list" where
  "handleDownloadResults toStr createObjectURL s =
     (case results s of
        None \<Rightarrow> []
      | Some r \<Rightarrow>
          (let blob = \<lparr>blob_parts = TextData (fileContent toStr r),
                         blob_type = ''text/plain;charset=utf-8''\<rparr>;
               link = \<lparr>href = createObjectURL blob,
                         download = ''translation_results.txt''\<rparr>
           in [CreateObjectURL blob, AppendChild link, Click link, RemoveChild link]))"

section \<open>Properties of sentence splitting\<close>

subsection \<open>The matcher on the sentence pattern\<close>

lemma ends_star_class:
  "ends (Star (CharClass neg cs)) s \<noteq> [] \<and>
   hd (ends (Star (CharClass neg cs)) s) = dropWhile (\<lambda>c. (c \<in> set cs) \<noteq> neg) s"
proof (induction s)
  case Nil
  show ?case by (simp add: ends.simps(3))
next
  case (Cons c s)
  show ?case
  proof (cases "(c \<in> set cs) \<noteq> neg")
    case True
    then have "ends (Star (CharClass neg cs)) (c # s) = ends (Star (CharClass neg cs)) s @ [c # s]"
      by (subst ends.simps(3)) simp
    with Cons True show ?thesis by simp
  next
    case False
    then have "ends (Star (CharClass neg cs)) (c # s) = [c # s]"
      by (subst ends.simps(3)) simp
    with False show ?thesis by simp
  qed
qed

lemma ends_sentence_Nil: "ends sentencePattern [] = []"
  by (simp add: sentencePattern_def)

lemma ends_sentence_delim: "isDelimiter c \<Longrightarrow> ends sentencePattern (c # s) = []"
  by (simp add: sentencePattern_def isDelimiter_def)

lemma ends_sentence_clause:
  assumes "\<not> isDelimiter c"
  shows "\<exists>es. ends sentencePattern (c # s) =
            dropWhile isDelimiter (dropWhile (\<lambda>c. \<not> isDelimiter c) s) # es"
proof -
  let ?N = "CharClass True ''.!?''" and ?D = "CharClass False ''.!?''"
  have N: "(\<lambda>c. (c \<in> set ''.!?'') \<noteq> True) = (\<lambda>c. \<not> isDelimiter c)"
    by (simp add: isDelimiter_def fun_eq_iff)
  have D: "(\<lambda>c. (c \<in> set ''.!?'') \<noteq> False) = isDelimiter"
    by (simp add: isDelimiter_def fun_eq_iff)
  from ends_star_class [of True "''.!?''" s] obtain x xs
    where x: "ends (Star ?N) s = x # xs" "x = dropWhile (\<lambda>c. \<not> isDelimiter c) s"
    unfolding N by (cases "ends (Star ?N) s") auto
  from ends_star_class [of False "''.!?''" x] obtain y ys
    where y: "ends (Star ?D) x = y # ys" "y = dropWhile isDelimiter x"
    unfolding D by (cases "ends (Star ?D) x") auto
  from assms have "ends (Plus ?N) (c # s) = ends (Star ?N) s"
    by (simp add: isDelimiter_def)
  with x y have "ends sentencePattern (c # s) = y # ys @ concat (map (ends (Star ?D)) xs)"
    by (simp add: sentencePattern_def)
  with x y show ?thesis by blast
qed


lemma clause_split:
  "s = takeWhile (\<lambda>c. \<not> isDelimiter c) s
       @ takeWhile isDelimiter (dropWhile (\<lambda>c. \<not> isDelimiter c) s)
       @ dropWhile isDelimiter (dropWhile (\<lambda>c. \<not> isDelimiter c) s)"
  by simp

lemma take_clause:
  fixes s :: string
  assumes "s = a @ b @ e"
  shows "take (length (c # s) - length e) (c # s) = c # a @ b"
proof -
  from assms have "length (c # s) - length e = Suc (length (a @ b))" by simp
  with assms show ?thesis by simp
qed

lemma exec_sentence_None:
  "dropWhile isDelimiter s = [] \<Longrightarrow> exec sentencePattern s = None"
proof (induction s)
  case Nil
  show ?case by (simp add: ends_sentence_Nil)
next
  case (Cons c s)
  then have "isDelimiter c" "dropWhile isDelimiter s = []" by (auto split: if_splits)
  with Cons.IH show ?case by (simp add: ends_sentence_delim)
qed

lemma exec_sentence_Some:
  "dropWhile isDelimiter s = c # t \<Longrightarrow>
   exec sentencePattern s =
     Some (c # takeWhile (\<lambda>c. \<not> isDelimiter c) t
             @ takeWhile isDelimiter (dropWhile (\<lambda>c. \<not> isDelimiter c) t),
           dropWhile isDelimiter (dropWhile (\<lambda>c. \<not> isDelimiter c) t))"
proof (induction s)
  case Nil
  then show ?case by simp
next
  case (Cons c' s)
  show ?case
  proof (cases "isDelimiter c'")
    case True
    with Cons.prems have "dropWhile isDelimiter s = c # t" by simp
    with Cons.IH True show ?thesis by (simp add: ends_sentence_delim)
  next
    case False
    with Cons.prems have eq: "c' = c" "s = t" by simp_all
    from ends_sentence_clause [OF False, of s] obtain es where
      "ends sentencePattern (c' # s) =
         dropWhile isDelimiter (dropWhile (\<lambda>c. \<not> isDelimiter c) s) # es" ..
    then have "exec sentencePattern (c' # s) =
       Some (take (length (c' # s)
                   - length (dropWhile isDelimiter (dropWhile (\<lambda>c. \<not> isDelimiter c) s)))
               (c' # s),
             dropWhile isDelimiter (dropWhile (\<lambda>c. \<not> isDelimiter c) s))"
      by simp
    also note take_clause [OF clause_split [of s], of c']
    finally show ?thesis using eq by simp
  qed
qed


lemma matchAll_sentence_None:
  "dropWhile isDelimiter s = [] \<Longrightarrow> matchAll sentencePattern s = []"
  by (subst matchAll.simps) (simp add: exec_sentence_None)

lemma matchAll_sentence_Some:
  "dropWhile isDelimiter s = c # t \<Longrightarrow>
   matchAll sentencePattern s =
     (c # takeWhile (\<lambda>c. \<not> isDelimiter c) t
        @ takeWhile isDelimiter (dropWhile (\<lambda>c. \<not> isDelimiter c) t))
     # matchAll sentencePattern (dropWhile isDelimiter (dropWhile (\<lambda>c. \<not> isDelimiter c) t))"
  by (subst matchAll.simps) (simp add: exec_sentence_Some)

lemma splitIntoSentences_matchAll:
  "splitIntoSentences text = matchAll sentencePattern text"
  by (simp add: splitIntoSentences_def match_g_def split: list.splits)

lemma rest_shorter:
  "dropWhile isDelimiter s = c # t \<Longrightarrow>
   length (dropWhile isDelimiter (dropWhile (\<lambda>c. \<not> isDelimiter c) t)) < length s"
proof -
  assume a: "dropWhile isDelimiter s = c # t"
  have "length (dropWhile isDelimiter (dropWhile (\<lambda>c. \<not> isDelimiter c) t)) \<le> length t"
    by (meson length_dropWhile_le order_trans)
  also have "length t < length (dropWhile isDelimiter s)" using a by simp
  also have "\<dots> \<le> length s" by (rule length_dropWhile_le)
  finally show ?thesis .
qed

lemma concat_matchAll_sentence:
  "concat (matchAll sentencePattern s) = dropWhile isDelimiter s"
proof (induction "length s" arbitrary: s rule: less_induct)
  case less
  show ?case
  proof (cases "dropWhile isDelimiter s")
    case Nil
    show ?thesis unfolding matchAll_sentence_None [OF Nil] Nil by simp
  next
    case (Cons c t)
    let ?v = "dropWhile isDelimiter (dropWhile (\<lambda>c. \<not> isDelimiter c) t)"
    have "concat (matchAll sentencePattern ?v) = dropWhile isDelimiter ?v"
      by (rule less) (rule rest_shorter [OF Cons])
    also have "\<dots> = ?v" by (simp add: dropWhile_idem)
    finally show ?thesis using matchAll_sentence_Some [OF Cons] Cons by simp
  qed
qed

lemma matchAll_sentence_element:
  "e \<in> set (matchAll sentencePattern s) \<Longrightarrow>
   (\<exists>pre post. s = pre @ e @ post \<and> (post = [] \<or> \<not> isDelimiter (hd post))) \<and>
   (\<exists>a b. e = a @ b \<and> a \<noteq> [] \<and> (\<forall>c\<in>set a. \<not> isDelimiter c) \<and> (\<forall>c\<in>set b. isDelimiter c))"
proof (induction "length s" arbitrary: s rule: less_induct)
  case less
  show ?case
  proof (cases "dropWhile isDelimiter s")
    case Nil
    from matchAll_sentence_None [OF Nil] less.prems show ?thesis by simp
  next
    case (Cons c t)
    let ?a = "c # takeWhile (\<lambda>c. \<not> isDelimiter c) t"
    let ?b = "takeWhile isDelimiter (dropWhile (\<lambda>c. \<not> isDelimiter c) t)"
    let ?v = "dropWhile isDelimiter (dropWhile (\<lambda>c. \<not> isDelimiter c) t)"
    have c: "\<not> isDelimiter c"
      using hd_dropWhile [of isDelimiter s] Cons by simp
    have s: "s = takeWhile isDelimiter s @ (?a @ ?b) @ ?v"
      using takeWhile_dropWhile_id [of isDelimiter s] Cons by simp
    from less.prems matchAll_sentence_Some [OF Cons]
    consider "e = ?a @ ?b" | "e \<in> set (matchAll sentencePattern ?v)"
      by auto
    then show ?thesis
    proof cases
      case 1
      have "?v = [] \<or> \<not> isDelimiter (hd ?v)"
        using hd_dropWhile [of isDelimiter "dropWhile (\<lambda>c. \<not> isDelimiter c) t"] by blast
      with s 1 have "\<exists>pre post. s = pre @ e @ post \<and> (post = [] \<or> \<not> isDelimiter (hd post))"
        by blast
      moreover have "?a \<noteq> []" "\<forall>x\<in>set ?a. \<not> isDelimiter x" "\<forall>x\<in>set ?b. isDelimiter x"
        using c by (auto dest: set_takeWhileD)
      with 1 have "\<exists>a b. e = a @ b \<and> a \<noteq> [] \<and> (\<forall>c\<in>set a. \<not> isDelimiter c)
                      \<and> (\<forall>c\<in>set b. isDelimiter c)"
        by blast
      ultimately show ?thesis by blast
    next
      case 2
      from less.hyps [OF rest_shorter [OF Cons] 2] obtain pre post where
        v: "?v = pre @ e @ post" "post = [] \<or> \<not> isDelimiter (hd post)"
        and sh: "\<exists>a b. e = a @ b \<and> a \<noteq> [] \<and> (\<forall>c\<in>set a. \<not> isDelimiter c)
                      \<and> (\<forall>c\<in>set b. isDelimiter c)"
        by blast
      from s v(1) have "s = (takeWhile isDelimiter s @ (?a @ ?b) @ pre) @ e @ post"
        by simp
      with v(2) have "\<exists>pre post. s = pre @ e @ post \<and> (post = [] \<or> \<not> isDelimiter (hd post))"
        by blast
      with sh show ?thesis by blast
    qed
  qed
qed

subsection \<open>Claims about \<open>splitIntoSentences\<close>\<close>

text \<open>
  C1: \<open>splitIntoSentences\<close> applied to "Hello world. How are you? Fine!" returns
  exactly the three sentences "Hello world.", " How are you?" and " Fine!", in that order.
\<close>

theorem splitIntoSentences_example:
  "splitIntoSentences ''Hello world. How are you? Fine!'' =
     [''Hello world.'', '' How are you?'', '' Fine!'']"
  by code_simp

text \<open>
  C2, as stated: concatenating the sentences gives the text back unchanged.  This fails
  for a text that begins with a sentence-ending character: the pattern cannot start a
  match there, so the leading run of such characters is in no sentence.
\<close>

theorem splitIntoSentences_concat_counterexample:
  "concat (splitIntoSentences ''...and then?'') \<noteq> ''...and then?''"
  by code_simp

text \<open>
  C2, amended: concatenating the sentences of a text in order gives the text without
  its leading run of the characters \<open>.\<close>, \<open>!\<close> and \<open>?\<close>; nothing else is lost.
\<close>

theorem splitIntoSentences_concat:
  "concat (splitIntoSentences text) = dropWhile isDelimiter text"
  by (simp add: splitIntoSentences_matchAll concat_matchAll_sentence)

text \<open>
  C4: every sentence is a contiguous part of the text, made of one or more characters
  other than \<open>.\<close>, \<open>!\<close>, \<open>?\<close> followed by zero or more of these three characters; the
  sentence takes all the sentence-ending characters that follow its clause, so that none
  is left to start the next sentence.
\<close>

theorem splitIntoSentences_element:
  "e \<in> set (splitIntoSentences text) \<Longrightarrow>
   (\<exists>pre post. text = pre @ e @ post \<and> (post = [] \<or> \<not> isDelimiter (hd post))) \<and>
   (\<exists>a b. e = a @ b \<and> a \<noteq> [] \<and> (\<forall>c\<in>set a. \<not> isDelimiter c)
          \<and> (\<forall>c\<in>set b. isDelimiter c))"
  unfolding splitIntoSentences_matchAll by (rule matchAll_sentence_element)

theorem splitIntoSentences_element_witness:
  "'' How are you?'' \<in> set (splitIntoSentences ''Hello world. How are you? Fine!'') \<and>
   (\<exists>pre post. ''Hello world. How are you? Fine!'' = pre @ '' How are you?'' @ post) \<and>
   (\<exists>a b. '' How are you?'' = a @ b \<and> a \<noteq> [])"
proof -
  have h: "'' How are you?'' \<in> set (splitIntoSentences ''Hello world. How are you? Fine!'')"
    by code_simp
  from h splitIntoSentences_element [OF h] show ?thesis by blast
qed

text \<open>
  C9: for a text with no character other than \<open>.\<close>, \<open>!\<close> and \<open>?\<close>, the empty text
  included, the pattern matches nowhere, the match result is \<open>null\<close> and
  \<open>splitIntoSentences\<close> returns the empty list.
\<close>

theorem splitIntoSentences_only_delimiters:
  "\<forall>c\<in>set text. isDelimiter c \<Longrightarrow>
   match_g sentencePattern text = None \<and> splitIntoSentences text = []"
proof -
  assume "\<forall>c\<in>set text. isDelimiter c"
  then have "dropWhile isDelimiter text = []" by simp
  then have "matchAll sentencePattern text = []" by (rule matchAll_sentence_None)
  then show ?thesis by (simp add: splitIntoSentences_def match_g_def)
qed

theorem splitIntoSentences_only_delimiters_witness:
  "match_g sentencePattern ''?!..'' = None \<and> splitIntoSentences ''?!..'' = [] \<and>
   match_g sentencePattern [] = None \<and> splitIntoSentences [] = []"
proof -
  have h1: "\<forall>c\<in>set ''?!..''. isDelimiter c" by (simp add: isDelimiter_def)
  have h2: "\<forall>c\<in>set ([] :: string). isDelimiter c" by simp
  from splitIntoSentences_only_delimiters [OF h1] splitIntoSentences_only_delimiters [OF h2]
  show ?thesis by blast
qed

section \<open>Properties of the handlers\<close>

subsection \<open>The form submission\<close>

text \<open>
  C3: when the request of \<open>handleSubmit\<close> fails, the state afterwards has \<open>results\<close>
  equal to \<open>null\<close> and \<open>loading\<close> equal to \<open>False\<close>.  After the request the handler
  only writes the error to the console and resets \<open>loading\<close>: the state differs from
  the state before the call in nothing but \<open>loading\<close>, \<open>results\<close> and \<open>syntaxTree\<close>, none
  of them set from the failed response.
\<close>

theorem handleSubmit_failure:
  "results (run (handleSubmit s (Rejected err)) s) = None \<and>
   loading (run (handleSubmit s (Rejected err)) s) = False \<and>
   afterRequest (handleSubmit s (Rejected err))
     = [ConsoleError ''Error during API call:'' err, SetLoading False] \<and>
   run (handleSubmit s (Rejected err)) s
     = s\<lparr>loading := False, results := None, syntaxTree := None\<rparr>"
  by (simp add: handleSubmit_def run_def)

text \<open>
  C6: before the request is sent \<open>handleSubmit\<close> has set \<open>results\<close> and \<open>syntaxTree\<close> to
  \<open>null\<close>, whatever the previous results were; when the request succeeds \<open>results\<close>
  becomes the data of the response and \<open>sentences\<close> becomes
  \<open>splitIntoSentences inputText\<close>.
\<close>

theorem handleSubmit_replaces_results:
  "beforeRequest (handleSubmit s reply)
     = [PreventDefault, SetLoading True, SetResults None, SetSyntaxTree None] \<and>
   results (run (beforeRequest (handleSubmit s reply)) s) = None \<and>
   syntaxTree (run (beforeRequest (handleSubmit s reply)) s) = None \<and>
   results (run (handleSubmit s (Resolved response)) s) = Some (data response) \<and>
   sentences (run (handleSubmit s (Resolved response)) s)
     = splitIntoSentences (inputText s)"
  by (simp add: handleSubmit_def run_def)

subsection \<open>The syntax tree\<close>

text \<open>
  C8: with a sentence selected, when the request of \<open>handleGenerateTree\<close> fails the error
  is caught and only written to the console, \<open>syntaxTree\<close> stays \<open>null\<close> and
  \<open>treeLoading\<close> is reset to \<open>False\<close>.
\<close>

theorem handleGenerateTree_failure:
  "selectedSentence s \<noteq> [] \<Longrightarrow>
   syntaxTree (run (handleGenerateTree createObjectURL s (Rejected err)) s) = None \<and>
   treeLoading (run (handleGenerateTree createObjectURL s (Rejected err)) s) = False \<and>
   afterRequest (handleGenerateTree createObjectURL s (Rejected err))
     = [ConsoleError ''Error during tree generation API call:'' err, SetTreeLoading False] \<and>
   run (handleGenerateTree createObjectURL s (Rejected err)) s
     = s\<lparr>treeLoading := False, syntaxTree := None\<rparr>"
  by (simp add: handleGenerateTree_def run_def)

theorem handleGenerateTree_failure_witness:
  "selectedSentence (initialState\<lparr>selectedSentence := ''Hi.''\<rparr> :: string app_state) \<noteq> [] \<and>
   syntaxTree (run (handleGenerateTree (\<lambda>b. ''blob:1'')
       (initialState\<lparr>selectedSentence := ''Hi.''\<rparr>) (Rejected ''Network Error''))
       (initialState\<lparr>selectedSentence := ''Hi.''\<rparr> :: string app_state)) = None \<and>
   treeLoading (run (handleGenerateTree (\<lambda>b. ''blob:1'')
       (initialState\<lparr>selectedSentence := ''Hi.''\<rparr>) (Rejected ''Network Error''))
       (initialState\<lparr>selectedSentence := ''Hi.''\<rparr> :: string app_state)) = False"
proof -
  let ?s = "initialState\<lparr>selectedSentence := ''Hi.''\<rparr> :: string app_state"
  have h: "selectedSentence ?s \<noteq> []" by simp
  from h handleGenerateTree_failure [OF h, of "\<lambda>b. ''blob:1''" "''Network Error''"]
  show ?thesis by blast
qed

text \<open>
  C10: with no sentence selected (the empty string) \<open>handleGenerateTree\<close> returns at once:
  it does nothing, sends no request and leaves the state, \<open>syntaxTree\<close> and \<open>treeLoading\<close>
  in particular, as it was.
\<close>

theorem handleGenerateTree_no_selection:
  "selectedSentence s = [] \<Longrightarrow>
   handleGenerateTree createObjectURL s reply = [] \<and>
   requests (handleGenerateTree createObjectURL s reply) = [] \<and>
   run (handleGenerateTree createObjectURL s reply) s = s"
  by (simp add: handleGenerateTree_def run_def)

theorem handleGenerateTree_no_selection_witness:
  "selectedSentence (initialState :: string app_state) = [] \<and>
   (handleGenerateTree (\<lambda>b. ''blob:1'') initialState (Resolved \<lparr>data = [137, 80, 78, 71]\<rparr>)
      :: (string, string) effect list) = [] \<and>
   run (handleGenerateTree (\<lambda>b. ''blob:1'') initialState (Resolved \<lparr>data = [137, 80, 78, 71]\<rparr>)
      :: (string, string) effect list) initialState = initialState"
proof -
  have h: "selectedSentence (initialState :: string app_state) = []"
    by (simp add: initialState_def)
  from h handleGenerateTree_no_selection [OF h, of "\<lambda>b. ''blob:1''" "Resolved \<lparr>data = [137, 80, 78, 71]\<rparr>"]
  show ?thesis by blast
qed

subsection \<open>Requests\<close>

text \<open>
  C5: every call of \<open>handleSubmit\<close> sends exactly one request, a POST to
  \<open>/api/v0/translation\<close> whose body holds \<open>inputText\<close>; every call of
  \<open>handleGenerateTree\<close> with a sentence selected sends exactly one request, a POST to
  \<open>/api/v0/tree\<close> whose body holds the selected sentence and whose response is read as
  an array buffer; no handler sends more than one request in a call.
\<close>

theorem one_request_per_invocation:
  "requests (handleSubmit s reply)
     = [\<lparr>url = ''http://localhost:8000/api/v0/translation'',
         body_text = inputText s, responseType = Json\<rparr>] \<and>
   (selectedSentence s \<noteq> [] \<longrightarrow>
      requests (handleGenerateTree createObjectURL s treeReply)
        = [\<lparr>url = ''http://localhost:8000/api/v0/tree'',
            body_text = selectedSentence s, responseType = ArrayBuffer\<rparr>]) \<and>
   length (requests (handleGenerateTree createObjectURL s treeReply)) \<le> 1 \<and>
   requests (handleDownloadResults toStr createObjectURL s) = []"
  by (cases reply; cases treeReply)
     (simp_all add: handleSubmit_def handleGenerateTree_def handleDownloadResults_def
        Let_def split: option.splits)

theorem one_request_per_invocation_witness:
  "selectedSentence (initialState\<lparr>inputText := ''Hi. Yo!'', selectedSentence := ''Hi.''\<rparr>
      :: string app_state) \<noteq> [] \<and>
   requests (handleGenerateTree (\<lambda>b. ''blob:1'')
       (initialState\<lparr>inputText := ''Hi. Yo!'', selectedSentence := ''Hi.''\<rparr>
          :: string app_state)
       (Rejected ''Network Error'') :: (string, string) effect list)
     = [\<lparr>url = ''http://localhost:8000/api/v0/tree'', body_text = ''Hi.'',
         responseType = ArrayBuffer\<rparr>] \<and>
   requests (handleSubmit
       (initialState\<lparr>inputText := ''Hi. Yo!'', selectedSentence := ''Hi.''\<rparr>
          :: string app_state)
       (Rejected ''Network Error'') :: (string, string) effect list)
     = [\<lparr>url = ''http://localhost:8000/api/v0/translation'', body_text = ''Hi. Yo!'',
         responseType = Json\<rparr>]"
proof -
  let ?s = "initialState\<lparr>inputText := ''Hi. Yo!'', selectedSentence := ''Hi.''\<rparr>
              :: string app_state"
  have h: "selectedSentence ?s \<noteq> []" by simp
  have i: "inputText ?s = ''Hi. Yo!''" "selectedSentence ?s = ''Hi.''" by simp_all
  from one_request_per_invocation
    [where s = ?s and reply = "Rejected ''Network Error''"
       and createObjectURL = "\<lambda>b. ''blob:1''"
       and treeReply = "Rejected ''Network Error''" and toStr = "\<lambda>v. v"]
  show ?thesis unfolding i using h by blast
qed

subsection \<open>The exported file\<close>

text \<open>The loop that appends one line for each word is the concatenation of the lines.\<close>

lemma forEach_append:
  "forEach xs (\<lambda>x acc. acc @ f x) acc = acc @ concat (map f xs)"
  unfolding forEach_def by (induction xs arbitrary: acc) simp_all

lemma fileContent_eq:
  "fileContent toStr r =
     ''Translation Results\<newline>\<newline>\<newline>Original Text:\<newline>''
     @ toStr (original_text r) @ ''\<newline>\<newline>''
     @ ''Original Text Analysis:\<newline>Words Count: ''
     @ toStr (words_count (original_text_analysis r)) @ ''\<newline>Words Info:\<newline>''
     @ concat (map (wordLine toStr) (words_info (original_text_analysis r)))
     @ ''\<newline>Translated Text:\<newline>''
     @ toStr (translated_text r) @ ''\<newline>\<newline>''
     @ ''Translated Text Analysis:\<newline>Words Count: ''
     @ toStr (words_count (translated_text_analysis r)) @ ''\<newline>Words Info:\<newline>''
     @ concat (map (wordLine toStr) (words_info (translated_text_analysis r)))"
  by (simp add: fileContent_def Let_def forEach_append)

text \<open>The line written for one entry of a word list, as a function of the entry.\<close>

lemma wordLine_fun:
  "wordLine toStr =
     (\<lambda>info. ''  - Word: '' @ toStr (word info) @ '', Frequency: '' @ toStr (freq info)
        @ '', Grammatical Info: '' @ toStr (gram_info info) @ ''\<newline>'')"
  by (rule ext) (simp add: wordLine_def)

text \<open>
  C7: when \<open>results\<close> is not \<open>null\<close>, \<open>handleDownloadResults\<close> offers for download a
  file named \<open>translation_results.txt\<close> of type text/plain whose text holds, in this
  order, the original text, the word count of its analysis, one line for each entry of its
  word list giving the word, the frequency and the grammatical information of that entry,
  and then the same for the translated text.
\<close>

theorem handleDownloadResults_file:
  "results s = Some r \<Longrightarrow>
   handleDownloadResults toStr createObjectURL s =
     (let content =
            ''Translation Results\<newline>\<newline>\<newline>Original Text:\<newline>''
            @ toStr (original_text r) @ ''\<newline>\<newline>''
            @ ''Original Text Analysis:\<newline>Words Count: ''
            @ toStr (words_count (original_text_analysis r))
            @ ''\<newline>Words Info:\<newline>''
            @ concat (map (\<lambda>info. ''  - Word: '' @ toStr (word info)
                              @ '', Frequency: '' @ toStr (freq info)
                              @ '', Grammatical Info: '' @ toStr (gram_info info)
                              @ ''\<newline>'')
                        (words_info (original_text_analysis r)))
            @ ''\<newline>Translated Text:\<newline>''
            @ toStr (translated_text r) @ ''\<newline>\<newline>''
            @ ''Translated Text Analysis:\<newline>Words Count: ''
            @ toStr (words_count (translated_text_analysis r))
            @ ''\<newline>Words Info:\<newline>''
            @ concat (map (\<lambda>info. ''  - Word: '' @ toStr (word info)
                              @ '', Frequency: '' @ toStr (freq info)
                              @ '', Grammatical Info: '' @ toStr (gram_info info)
                              @ ''\<newline>'')
                        (words_info (translated_text_analysis r)));
          file = \<lparr>blob_parts = TextData content, blob_type = ''text/plain;charset=utf-8''\<rparr>;
          anchor = \<lparr>href = createObjectURL file, download = ''translation_results.txt''\<rparr>
      in [CreateObjectURL file, AppendChild anchor, Click anchor, RemoveChild anchor])"
  unfolding handleDownloadResults_def fileContent_eq wordLine_fun by (simp add: Let_def)

theorem handleDownloadResults_file_witness:
  "results (initialState\<lparr>results := Some
      \<lparr>original_text = ''Hi you'',
       original_text_analysis =
         \<lparr>words_count = ''5'',
          words_info = [\<lparr>word = ''Hi'', freq = ''2'', gram_info = ''INTJ''\<rparr>,
                        \<lparr>word = ''you'', freq = ''3'', gram_info = ''PRON''\<rparr>]\<rparr>,
       translated_text = ''Salut toi'',
       translated_text_analysis =
         \<lparr>words_count = ''11'',
          words_info = [\<lparr>word = ''Salut'', freq = ''4'', gram_info = ''NOUN''\<rparr>,
                        \<lparr>word = ''toi'', freq = ''7'', gram_info = ''ADV''\<rparr>]\<rparr>\<rparr>\<rparr>)
   \<noteq> None \<and>
   (handleDownloadResults (\<lambda>v. v) (\<lambda>b. ''blob:1'')
     (initialState\<lparr>results := Some
      \<lparr>original_text = ''Hi you'',
       original_text_analysis =
         \<lparr>words_count = ''5'',
          words_info = [\<lparr>word = ''Hi'', freq = ''2'', gram_info = ''INTJ''\<rparr>,
                        \<lparr>word = ''you'', freq = ''3'', gram_info = ''PRON''\<rparr>]\<rparr>,
       translated_text = ''Salut toi'',
       translated_text_analysis =
         \<lparr>words_count = ''11'',
          words_info = [\<lparr>word = ''Salut'', freq = ''4'', gram_info = ''NOUN''\<rparr>,
                        \<lparr>word = ''toi'', freq = ''7'', gram_info = ''ADV''\<rparr>]\<rparr>\<rparr>\<rparr>)
     :: (string, string) effect list) =
   [CreateObjectURL
      \<lparr>blob_parts = TextData
         (''Translation Results\<newline>\<newline>\<newline>Original Text:\<newline>Hi you\<newline>\<newline>''
          @ ''Original Text Analysis:\<newline>Words Count: 5\<newline>Words Info:\<newline>''
          @ ''  - Word: Hi, Frequency: 2, Grammatical Info: INTJ\<newline>''
          @ ''  - Word: you, Frequency: 3, Grammatical Info: PRON\<newline>''
          @ ''\<newline>Translated Text:\<newline>Salut toi\<newline>\<newline>''
          @ ''Translated Text Analysis:\<newline>Words Count: 11\<newline>Words Info:\<newline>''
          @ ''  - Word: Salut, Frequency: 4, Grammatical Info: NOUN\<newline>''
          @ ''  - Word: toi, Frequency: 7, Grammatical Info: ADV\<newline>''),
       blob_type = ''text/plain;charset=utf-8''\<rparr>,
    AppendChild \<lparr>href = ''blob:1'', download = ''translation_results.txt''\<rparr>,
    Click \<lparr>href = ''blob:1'', download = ''translation_results.txt''\<rparr>,
    RemoveChild \<lparr>href = ''blob:1'', download = ''translation_results.txt''\<rparr>]"
proof -
  let ?r = "\<lparr>original_text = ''Hi you'',
       original_text_analysis =
         \<lparr>words_count = ''5'',
          words_info = [\<lparr>word = ''Hi'', freq = ''2'', gram_info = ''INTJ''\<rparr>,
                        \<lparr>word = ''you'', freq = ''3'', gram_info = ''PRON''\<rparr>]\<rparr>,
       translated_text = ''Salut toi'',
       translated_text_analysis =
         \<lparr>words_count = ''11'',
          words_info = [\<lparr>word = ''Salut'', freq = ''4'', gram_info = ''NOUN''\<rparr>,
                        \<lparr>word = ''toi'', freq = ''7'', gram_info = ''ADV''\<rparr>]\<rparr>\<rparr>"
  let ?s = "initialState\<lparr>results := Some ?r\<rparr>"
  have h: "results ?s = Some ?r" by simp
  from handleDownloadResults_file [OF h, of "\<lambda>v. v" "\<lambda>b. ''blob:1''"]
  show ?thesis by (simp add: Let_def)
qed

end
